theory Spec2Isabelle
  imports Complex_Main
begin

section \<open>The workout flow state machine\<close>

text \<open>
  The engine is the closure of the workout-flow script (the file headed
  \<^verbatim>\<open>Workout Flow State Machine\<close>; \<^verbatim>\<open>design_exploration/v2/common.js\<close> has the same
  transition code and differs in labels and default constants only). Its module state is
  the record \<open>state\<close>; every function of the script that reads or writes that state is a
  HOL function taking the state and returning the new state together with the list of host
  effects it performed, in the order of the source. The one-second task that only redraws
  the elapsed time changes no state and is left out.

  JavaScript raises a \<^verbatim>\<open>TypeError\<close> when a property of \<^verbatim>\<open>undefined\<close> is read; these
  implicit raises are the \<open>Inl TypeError\<close> branches. A read past the end of an array gives
  \<^verbatim>\<open>undefined\<close>, and every comparison with \<^verbatim>\<open>undefined\<close> is false; \<open>nth_opt\<close>,
  \<open>undef_lt\<close> and \<open>undef_ge\<close> write that out. The level-up loop of \<^verbatim>\<open>addRewards\<close> need
  not end; an operation that runs into such a loop never returns, which is the outcome
  \<open>Inl NeverReturns\<close>.
\<close>

subsection \<open>JavaScript values\<close>

text \<open>
  The numbers that reach \<^verbatim>\<open>submitSet\<close> come from \<^verbatim>\<open>Number(form.reps.value)\<close>: any finite
  number (not only integers), \<^verbatim>\<open>NaN\<close> or an infinity. Finite values are modelled as
  rationals. Configured quantities (set counts, seconds, rewards, initial counters) are
  integers. Set counts and rest seconds are only compared and stepped by 1, which the script
  computes exactly below \<open>2 ^ 53\<close>; they are integers here. The rewards and the progression
  counters are added up, so they are modelled as the doubles they are, see \<open>counter\<close>.
\<close>

datatype jsnum = Num rat | NaN | PosInfinity | NegInfinity

fun isFinite :: "jsnum \<Rightarrow> bool" where
  "isFinite (Num r) = True"
| "isFinite NaN = False"
| "isFinite PosInfinity = False"
| "isFinite NegInfinity = False"

fun isInteger :: "jsnum \<Rightarrow> bool" where
  "isInteger (Num r) = (of_int (floor r) = r)"
| "isInteger NaN = False"
| "isInteger PosInfinity = False"
| "isInteger NegInfinity = False"

text \<open>\<^verbatim>\<open>x <= c\<close> and \<^verbatim>\<open>x < c\<close> for a finite \<open>c\<close>; comparisons with \<^verbatim>\<open>NaN\<close> are false.\<close>

fun js_le :: "jsnum \<Rightarrow> rat \<Rightarrow> bool" where
  "js_le (Num r) c = (r \<le> c)"
| "js_le NaN c = False"
| "js_le PosInfinity c = False"
| "js_le NegInfinity c = True"

fun js_lt :: "jsnum \<Rightarrow> rat \<Rightarrow> bool" where
  "js_lt (Num r) c = (r < c)"
| "js_lt NaN c = False"
| "js_lt PosInfinity c = False"
| "js_lt NegInfinity c = True"

datatype error = TypeError | NeverReturns

definition nth_opt :: "'a list \<Rightarrow> nat \<Rightarrow> 'a option" where
  "nth_opt xs i = (if i < length xs then Some (xs ! i) else None)"

definition undef_lt :: "int option \<Rightarrow> int \<Rightarrow> bool" where
  "undef_lt a b = (case a of None \<Rightarrow> False | Some x \<Rightarrow> x < b)"

definition undef_ge :: "int option \<Rightarrow> int \<Rightarrow> bool" where
  "undef_ge a b = (case a of None \<Rightarrow> False | Some x \<Rightarrow> b \<le> x)"

text \<open>
  The progression counters are JavaScript numbers, that is doubles. The script starts them at
  configured numbers and only ever adds configured numbers, 1 and \<open>- 100\<close> to them; with
  integers configured, their values are integers that a double represents, an infinity after
  an overflow, or \<^verbatim>\<open>NaN\<close> after adding opposite infinities. \<open>round53\<close> rounds a natural
  number to 53 significant bits, ties to the even significand, as the addition of doubles
  rounds its exact result; \<open>to_double\<close> is the double for an exact integer, an infinity from
  \<open>2 ^ 1024\<close> on. A configured integer \<open>n\<close> enters the script as the double \<open>to_double n\<close>.
\<close>

datatype counter = Finite int | PlusInfinity | MinusInfinity | NotANumber

fun bit_length :: "nat \<Rightarrow> nat" where
  "bit_length n = (if n = 0 then 0 else Suc (bit_length (n div 2)))"

definition round53 :: "nat \<Rightarrow> nat" where
  "round53 n =
     (if n \<le> 9007199254740992 then n
      else let sh = bit_length n - 53;
               q = n div 2 ^ sh;
               r = n mod 2 ^ sh;
               half = 2 ^ (sh - 1)
           in (if half < r \<or> (r = half \<and> odd q) then q + 1 else q) * 2 ^ sh)"

definition to_double :: "int \<Rightarrow> counter" where
  "to_double x =
     (let m = round53 (nat \<bar>x\<bar>)
      in if 2 ^ 1024 \<le> m then (if x < 0 then MinusInfinity else PlusInfinity)
         else Finite (if x < 0 then - int m else int m))"

text \<open>\<^verbatim>\<open>x + y\<close> for two counters, and \<^verbatim>\<open>x >= b\<close> for a counter \<open>x\<close> and an integer literal \<open>b\<close>.\<close>

fun js_plus :: "counter \<Rightarrow> counter \<Rightarrow> counter" where
  "js_plus (Finite a) (Finite b) = to_double (a + b)"
| "js_plus NotANumber y = NotANumber"
| "js_plus x NotANumber = NotANumber"
| "js_plus PlusInfinity MinusInfinity = NotANumber"
| "js_plus MinusInfinity PlusInfinity = NotANumber"
| "js_plus PlusInfinity y = PlusInfinity"
| "js_plus x PlusInfinity = PlusInfinity"
| "js_plus MinusInfinity y = MinusInfinity"
| "js_plus x MinusInfinity = MinusInfinity"

fun js_at_least :: "counter \<Rightarrow> int \<Rightarrow> bool" where
  "js_at_least (Finite a) b = (b \<le> a)"
| "js_at_least PlusInfinity b = True"
| "js_at_least MinusInfinity b = False"
| "js_at_least NotANumber b = False"

text \<open>
  A string of the input draft is a literal of the script or \<^verbatim>\<open>String(n)\<close> for a configured
  number. The digits of \<^verbatim>\<open>String(n)\<close> are the host's (the shortest that read back as \<open>n\<close>,
  in exponent notation from \<open>10 ^ 21\<close> on); \<open>NumberText n\<close> stands for that string. It is never
  empty, and different numbers give different strings.
\<close>

datatype js_text = Text string | NumberText int

subsection \<open>Configuration\<close>

record exercise =
  name :: string
  targetReps :: int
  setCount :: int
  defaultWeight :: int
  restSeconds :: int

record workout =
  workoutName :: string
  exercises :: "exercise list"

text \<open>
  The configuration after the script's defaults have been applied: \<open>workout\<close>,
  \<open>labels.rank\<close>, the four \<open>rewards\<close> and the four \<open>initial\<close> counters.
\<close>

record config =
  workout :: workout
  rankLabel :: string
  setPoints :: int
  setCurrency :: int
  exercisePoints :: int
  exerciseCurrency :: int
  initialRank :: int
  initialRankXp :: int
  initialStreak :: int
  initialCurrency :: int

definition DEFAULT_WORKOUT :: workout where
  "DEFAULT_WORKOUT = \<lparr> workoutName = ''Upper Body Circuit'', exercises =
     [ \<lparr> name = ''Lat Pulldown'', targetReps = 10, setCount = 4, defaultWeight = 90, restSeconds = 3 \<rparr>,
       \<lparr> name = ''Cable Row'', targetReps = 12, setCount = 4, defaultWeight = 80, restSeconds = 3 \<rparr>,
       \<lparr> name = ''Face Pull'', targetReps = 15, setCount = 3, defaultWeight = 40, restSeconds = 3 \<rparr>,
       \<lparr> name = ''Chest Press'', targetReps = 10, setCount = 4, defaultWeight = 110, restSeconds = 3 \<rparr>,
       \<lparr> name = ''Chest Fly'', targetReps = 12, setCount = 3, defaultWeight = 70, restSeconds = 3 \<rparr> ] \<rparr>"

definition DEFAULT_CONFIG :: config where
  "DEFAULT_CONFIG = \<lparr> workout = DEFAULT_WORKOUT, rankLabel = ''Level'',
     setPoints = 10, setCurrency = 5, exercisePoints = 25, exerciseCurrency = 12,
     initialRank = 3, initialRankXp = 45, initialStreak = 7, initialCurrency = 250 \<rparr>"

subsection \<open>Session state and host effects\<close>

datatype screen = SMain | SCircuit | SProgress | SInput | SRest | SComplete

record set_entry =
  setNumber :: jsnum
  reps :: jsnum
  weight :: jsnum
  atTime :: string

record input_draft =
  draftReps :: js_text
  draftWeight :: js_text

text \<open>
  \<open>restTimerId\<close> is \<^verbatim>\<open>null\<close> or the handle of the repeating task. The script only tests the
  handle for truthiness and passes it to \<^verbatim>\<open>clearInterval\<close>; every handle it obtains is
  stored in this field after the previous one was cleared, so the repeating task is live
  exactly when the field is not \<open>None\<close>.
\<close>

datatype interval_handle = IntervalHandle

record state =
  screen :: screen
  startedAt :: "int option"
  selectedExercise :: "nat option"
  completedSets :: "int list"
  entries :: "set_entry list list"
  currentInput :: input_draft
  restRemaining :: int
  restTimerStarted :: bool
  restTimerId :: "interval_handle option"
  inputSubmitted :: bool
  rank :: counter
  rankXp :: counter
  streak :: int
  currency :: counter
  sessionPoints :: counter

datatype notice =
    LevelUp string counter
  | RestComplete "string option"
  | TimerEnded
  | FinishFirst string
  | ExerciseComplete string
  | SelectFirst
  | AlreadySubmitted
  | InvalidReps
  | InvalidWeight

datatype effect = Render | Toast notice | SetInterval | ClearInterval

type_synonym outcome = "error + (state \<times> effect list)"

definition after :: "effect list \<Rightarrow> outcome \<Rightarrow> outcome" where
  "after es r = (case r of Inl e \<Rightarrow> Inl e | Inr (s, es') \<Rightarrow> Inr (s, es @ es'))"

definition initialState :: "config \<Rightarrow> state" where
  "initialState cfg =
     \<lparr> screen = SMain,
       startedAt = None,
       selectedExercise = None,
       completedSets = replicate (length (exercises (workout cfg))) 0,
       entries = replicate (length (exercises (workout cfg))) [],
       currentInput = \<lparr> draftReps = Text '''', draftWeight = Text '''' \<rparr>,
       restRemaining = 0,
       restTimerStarted = False,
       restTimerId = None,
       inputSubmitted = False,
       rank = to_double (initialRank cfg),
       rankXp = to_double (initialRankXp cfg),
       streak = initialStreak cfg,
       currency = to_double (initialCurrency cfg),
       sessionPoints = Finite 0 \<rparr>"

subsection \<open>Queries\<close>

definition exerciseByIndex :: "config \<Rightarrow> nat \<Rightarrow> exercise option" where
  "exerciseByIndex cfg index = nth_opt (exercises (workout cfg)) index"

definition lockedExerciseIndex :: "config \<Rightarrow> state \<Rightarrow> nat option" where
  "lockedExerciseIndex cfg s =
     (case selectedExercise s of
        None \<Rightarrow> None
      | Some sel \<Rightarrow>
          (case exerciseByIndex cfg sel of
             None \<Rightarrow> None
           | Some ex \<Rightarrow>
               if undef_lt (nth_opt (completedSets s) sel) (setCount ex) then Some sel else None))"

definition allExercisesComplete :: "config \<Rightarrow> state \<Rightarrow> bool" where
  "allExercisesComplete cfg s =
     list_all (\<lambda>idx. undef_ge (nth_opt (completedSets s) idx) (setCount (exercises (workout cfg) ! idx)))
       [0 ..< length (exercises (workout cfg))]"

subsection \<open>Rewards\<close>

text \<open>
  The \<^verbatim>\<open>while (state.rankXp >= 100)\<close> loop of \<^verbatim>\<open>addRewards\<close>, with the toasts shown so
  far; \<^verbatim>\<open>x -= 100\<close> adds \<open>- 100\<close>. On doubles the loop need not end: from about
  \<open>2 ^ 60\<close> on, and at infinity, taking 100 away gives the same number back. Not
  returning is the value \<open>None\<close>.
\<close>

partial_function (option) levelUpLoop :: "config \<Rightarrow> state \<Rightarrow> effect list \<Rightarrow> (state \<times> effect list) option" where
  "levelUpLoop cfg s es =
     (if js_at_least (rankXp s) 100 then
        levelUpLoop cfg
          (s\<lparr> rankXp := js_plus (rankXp s) (Finite (- 100)), rank := js_plus (rank s) (Finite 1) \<rparr>)
          (es @ [Toast (LevelUp (rankLabel cfg) (js_plus (rank s) (Finite 1)))])
      else Some (s, es))"

definition addRewards :: "config \<Rightarrow> int \<Rightarrow> int \<Rightarrow> state \<Rightarrow> (state \<times> effect list) option" where
  "addRewards cfg points currencyGain s =
     levelUpLoop cfg (s\<lparr> sessionPoints := js_plus (sessionPoints s) (to_double points),
                          rankXp := js_plus (rankXp s) (to_double points),
                          currency := js_plus (currency s) (to_double currencyGain) \<rparr>) []"

subsection \<open>Rest timer\<close>

definition stopRestTimer :: "state \<Rightarrow> state \<times> effect list" where
  "stopRestTimer s =
     (if restTimerId s \<noteq> None then (s\<lparr> restTimerId := None \<rparr>, [ClearInterval]) else (s, []))"

definition beginRestTimer :: "state \<Rightarrow> state \<times> effect list" where
  "beginRestTimer s =
     (case stopRestTimer s of
        (s1, es) \<Rightarrow> (s1\<lparr> restTimerId := Some IntervalHandle \<rparr>, es @ [SetInterval]))"

text \<open>
  \<^verbatim>\<open>notifyTimerDone\<close>: the toast. The desktop notification it may also raise is wrapped in
  \<^verbatim>\<open>try/catch\<close> and touches no state; it is left out.
\<close>

definition notifyTimerDone :: "config \<Rightarrow> state \<Rightarrow> effect list" where
  "notifyTimerDone cfg s =
     [Toast (RestComplete
        (case selectedExercise s of
           None \<Rightarrow> None
         | Some idx \<Rightarrow> map_option name (exerciseByIndex cfg idx)))]"

definition advanceAfterSet :: "config \<Rightarrow> state \<Rightarrow> outcome" where
  "advanceAfterSet cfg s =
     (case selectedExercise s of
        None \<Rightarrow> Inr (s, [])
      | Some idx \<Rightarrow>
          (case exerciseByIndex cfg idx of
             None \<Rightarrow> Inl TypeError
           | Some ex \<Rightarrow>
               let s1 = (if undef_lt (nth_opt (completedSets s) idx) (setCount ex)
                         then s\<lparr> completedSets := (completedSets s)[idx := completedSets s ! idx + 1] \<rparr>
                         else s);
                   s2 = s1\<lparr> restRemaining := 0, restTimerStarted := False, inputSubmitted := False \<rparr>
               in if undef_ge (nth_opt (completedSets s2) idx) (setCount ex) then
                    (case addRewards cfg (exercisePoints cfg) (exerciseCurrency cfg) s2 of
                       None \<Rightarrow> Inl NeverReturns
                     | Some (s3, es) \<Rightarrow>
                         let s4 = s3\<lparr> selectedExercise := None,
                                      currentInput := \<lparr> draftReps = Text '''', draftWeight = Text '''' \<rparr> \<rparr>;
                             s5 = s4\<lparr> screen := (if allExercisesComplete cfg s4 then SComplete else SCircuit) \<rparr>
                         in Inr (s5, es @ [Render]))
                  else Inr (s2\<lparr> screen := SProgress \<rparr>, [Render])))"

definition onRestTimerFinished :: "config \<Rightarrow> state \<Rightarrow> outcome" where
  "onRestTimerFinished cfg s =
     (case stopRestTimer s of
        (s1, es1) \<Rightarrow>
          let es2 = notifyTimerDone cfg s1
          in if inputSubmitted s1 then after (es1 @ es2) (advanceAfterSet cfg s1)
             else Inr (s1\<lparr> screen := SInput \<rparr>, es1 @ es2 @ [Render, Toast TimerEnded]))"

text \<open>The callback of the repeating task started by \<^verbatim>\<open>beginRestTimer\<close>.\<close>

definition restTick :: "config \<Rightarrow> state \<Rightarrow> outcome" where
  "restTick cfg s =
     (if 0 < restRemaining s then
        let s1 = s\<lparr> restRemaining := restRemaining s - 1 \<rparr>
        in if restRemaining s1 = 0 then after [Render] (onRestTimerFinished cfg s1)
           else Inr (s1, [Render])
      else onRestTimerFinished cfg s)"

subsection \<open>Operations\<close>

text \<open>\<open>now\<close> is the value of \<^verbatim>\<open>Date.now()\<close>; \<^verbatim>\<open>!state.startedAt\<close> holds for \<^verbatim>\<open>null\<close> and for 0.\<close>

definition startWorkout :: "config \<Rightarrow> int \<Rightarrow> state \<Rightarrow> state \<times> effect list" where
  "startWorkout cfg now s =
     (let s1 = (if startedAt s = None \<or> startedAt s = Some 0 then s\<lparr> startedAt := Some now \<rparr> else s)
      in (s1\<lparr> screen := (if allExercisesComplete cfg s1 then SComplete else SCircuit) \<rparr>, [Render]))"

text \<open>
  An index that is negative or not an integer reads \<^verbatim>\<open>undefined\<close> from the exercise array
  exactly as an index past the end does, so indices are natural numbers.
\<close>

definition chooseExercise :: "config \<Rightarrow> nat \<Rightarrow> state \<Rightarrow> outcome" where
  "chooseExercise cfg index s =
     (let lockedIdx = lockedExerciseIndex cfg s
      in if lockedIdx \<noteq> None \<and> lockedIdx \<noteq> Some index then
           (case exerciseByIndex cfg (the lockedIdx) of
              None \<Rightarrow> Inl TypeError
            | Some locked \<Rightarrow> Inr (s, [Toast (FinishFirst (name locked))]))
         else
           (case exerciseByIndex cfg index of
              None \<Rightarrow> Inr (s, [])
            | Some ex \<Rightarrow>
                if undef_ge (nth_opt (completedSets s) index) (setCount ex) then
                  Inr (s, [Toast (ExerciseComplete (name ex))])
                else
                  Inr (s\<lparr> selectedExercise := Some index,
                           restRemaining := 0,
                           restTimerStarted := False,
                           inputSubmitted := False,
                           currentInput := \<lparr> draftReps = NumberText (targetReps ex),
                                              draftWeight = NumberText (defaultWeight ex) \<rparr>,
                           screen := SProgress \<rparr>, [Render])))"

definition enterResultData :: "config \<Rightarrow> state \<Rightarrow> outcome" where
  "enterResultData cfg s =
     (case selectedExercise s of
        None \<Rightarrow> Inr (s, [Toast SelectFirst])
      | Some idx \<Rightarrow>
          if \<not> restTimerStarted s then
            (case exerciseByIndex cfg idx of
               None \<Rightarrow> Inl TypeError
             | Some ex \<Rightarrow>
                 (case beginRestTimer (s\<lparr> restRemaining := restSeconds ex, restTimerStarted := True \<rparr>) of
                    (s1, es) \<Rightarrow> Inr (s1\<lparr> screen := SInput \<rparr>, es @ [Render])))
          else Inr (s\<lparr> screen := SInput \<rparr>, [Render]))"

text \<open>
  \<open>repsIn\<close> and \<open>weightIn\<close> are \<^verbatim>\<open>Number(form.reps.value)\<close> and
  \<^verbatim>\<open>Number(form.weight.value)\<close>; \<open>clock\<close> is \<^verbatim>\<open>new Date().toLocaleTimeString()\<close>.
  \<^verbatim>\<open>state.completedSets[idx] + 1\<close> is \<^verbatim>\<open>NaN\<close> when the array has no such element, and
  \<^verbatim>\<open>state.entries[idx].push\<close> raises when \<^verbatim>\<open>state.entries[idx]\<close> is \<^verbatim>\<open>undefined\<close>.
\<close>

definition submitSet :: "config \<Rightarrow> jsnum \<Rightarrow> jsnum \<Rightarrow> string \<Rightarrow> state \<Rightarrow> outcome" where
  "submitSet cfg repsIn weightIn clock s =
     (case selectedExercise s of
        None \<Rightarrow> Inr (s, [])
      | Some idx \<Rightarrow>
          if inputSubmitted s then Inr (s, [Toast AlreadySubmitted])
          else if \<not> isFinite repsIn \<or> js_le repsIn 0 then Inr (s, [Toast InvalidReps])
          else if \<not> isFinite weightIn \<or> js_lt weightIn 0 then Inr (s, [Toast InvalidWeight])
          else
            let setNo = (case nth_opt (completedSets s) idx of
                           None \<Rightarrow> NaN
                         | Some c \<Rightarrow> Num (of_int (c + 1)))
            in (case nth_opt (entries s) idx of
                  None \<Rightarrow> Inl TypeError
                | Some logged \<Rightarrow>
                    let s1 = s\<lparr> entries := (entries s)[idx := logged @
                                  [\<lparr> setNumber = setNo, reps = repsIn, weight = weightIn, atTime = clock \<rparr>]] \<rparr>
                    in (case addRewards cfg (setPoints cfg) (setCurrency cfg) s1 of
                          None \<Rightarrow> Inl NeverReturns
                        | Some (s2, es1) \<Rightarrow>
                            let s3 = s2\<lparr> inputSubmitted := True \<rparr>
                            in (case (if \<not> restTimerStarted s3 then
                                        (case exerciseByIndex cfg idx of
                                           None \<Rightarrow> Inl TypeError
                                         | Some ex \<Rightarrow>
                                             Inr (beginRestTimer
                                                    (s3\<lparr> restRemaining := restSeconds ex,
                                                         restTimerStarted := True \<rparr>)))
                                      else Inr (s3, [])) of
                                  Inl e \<Rightarrow> Inl e
                                | Inr (s4, es2) \<Rightarrow>
                                    if 0 < restRemaining s4 then
                                      Inr (s4\<lparr> screen := SRest \<rparr>, es1 @ es2 @ [Render])
                                    else after (es1 @ es2) (advanceAfterSet cfg s4)))))"

definition restartSession :: "config \<Rightarrow> state \<Rightarrow> state \<times> effect list" where
  "restartSession cfg s =
     (case stopRestTimer s of
        (s1, es) \<Rightarrow>
          (s1\<lparr> screen := SMain,
               startedAt := None,
               selectedExercise := None,
               completedSets := replicate (length (exercises (workout cfg))) 0,
               entries := replicate (length (exercises (workout cfg))) [],
               currentInput := \<lparr> draftReps = Text '''', draftWeight = Text '''' \<rparr>,
               restRemaining := 0,
               restTimerStarted := False,
               inputSubmitted := False,
               sessionPoints := Finite 0,
               rank := to_double (initialRank cfg),
               rankXp := to_double (initialRankXp cfg),
               streak := initialStreak cfg,
               currency := to_double (initialCurrency cfg) \<rparr>, es @ [Render]))"

subsection \<open>Events and reachable states\<close>

text \<open>
  The five operations can be called in any state; \<open>RestTick\<close> is one run of the repeating
  task's callback, which the host delivers only while the task is live: without a live task
  the event leaves the state as it is. A state is reachable when steps that return lead to
  it from the constructed state.
\<close>

datatype event =
    StartWorkout int
  | ChooseExercise nat
  | EnterResultData
  | SubmitSet jsnum jsnum string
  | RestartSession
  | RestTick

fun step :: "config \<Rightarrow> event \<Rightarrow> state \<Rightarrow> outcome" where
  "step cfg (StartWorkout now) s = Inr (startWorkout cfg now s)"
| "step cfg (ChooseExercise index) s = chooseExercise cfg index s"
| "step cfg EnterResultData s = enterResultData cfg s"
| "step cfg (SubmitSet r w clock) s = submitSet cfg r w clock s"
| "step cfg RestartSession s = Inr (restartSession cfg s)"
| "step cfg RestTick s = (if restTimerId s = None then Inr (s, []) else restTick cfg s)"

fun run :: "config \<Rightarrow> event list \<Rightarrow> state \<Rightarrow> outcome" where
  "run cfg [] s = Inr (s, [])"
| "run cfg (ev # evs) s =
     (case step cfg ev s of
        Inl e \<Rightarrow> Inl e
      | Inr (s1, es) \<Rightarrow> after es (run cfg evs s1))"

inductive reachable :: "config \<Rightarrow> state \<Rightarrow> bool" for cfg :: config where
  reachable_init: "reachable cfg (initialState cfg)"
| reachable_step: "reachable cfg s \<Longrightarrow> step cfg ev s = Inr (s', es) \<Longrightarrow> reachable cfg s'"

subsection \<open>What the rendered page can deliver\<close>

text \<open>
  The script calls its operations only from the two listeners on the page, and the page
  holds what the last \<^verbatim>\<open>render\<close> wrote; every path that changes the state ends in a
  \<^verbatim>\<open>render\<close>, so the page shows the current state (a \<^verbatim>\<open>render\<close> is taken to write the
  page). \<open>offered\<close> reads off \<^verbatim>\<open>renderScreen\<close> which events a page can deliver:
  \<^item> \<^verbatim>\<open>renderMain\<close> holds the start button;
  \<^item> \<^verbatim>\<open>renderCircuit\<close> holds one select button per exercise; it is also what
    \<^verbatim>\<open>renderProgress\<close> and \<^verbatim>\<open>renderInput\<close> return when no exercise is selected. The
    buttons of a finished or locked-out exercise carry \<^verbatim>\<open>disabled\<close>; their clicks are
    offered all the same, \<open>chooseExercise\<close> refuses them itself;
  \<^item> \<^verbatim>\<open>renderProgress\<close> holds the enter-result button, \<^verbatim>\<open>renderInput\<close> the form,
    \<^verbatim>\<open>renderComplete\<close> the restart button, \<^verbatim>\<open>renderRest\<close> nothing;
  \<^item> the rest timer's callback runs while its task is live.
  The notification button of the header changes no state and is left out. The form's
  values are not restricted here: what the browser itself refuses is not the script's.
\<close>

definition shownExercise :: "config \<Rightarrow> state \<Rightarrow> exercise option" where
  "shownExercise cfg s =
     (case selectedExercise s of None \<Rightarrow> None | Some idx \<Rightarrow> exerciseByIndex cfg idx)"

definition circuitShown :: "config \<Rightarrow> state \<Rightarrow> bool" where
  "circuitShown cfg s \<longleftrightarrow>
     screen s = SCircuit \<or>
     ((screen s = SProgress \<or> screen s = SInput) \<and> shownExercise cfg s = None)"

fun offered :: "config \<Rightarrow> state \<Rightarrow> event \<Rightarrow> bool" where
  "offered cfg s (StartWorkout now) = (screen s = SMain)"
| "offered cfg s (ChooseExercise index) =
     (circuitShown cfg s \<and> index < length (exercises (workout cfg)))"
| "offered cfg s EnterResultData = (screen s = SProgress \<and> shownExercise cfg s \<noteq> None)"
| "offered cfg s (SubmitSet r w clock) = (screen s = SInput \<and> shownExercise cfg s \<noteq> None)"
| "offered cfg s RestartSession = (screen s = SComplete)"
| "offered cfg s RestTick = (restTimerId s \<noteq> None)"


fun offered_along :: "config \<Rightarrow> event list \<Rightarrow> state \<Rightarrow> bool" where
  "offered_along cfg [] s = True"
| "offered_along cfg (ev # evs) s =
     (offered cfg s ev \<and>
      (case step cfg ev s of Inl e \<Rightarrow> True | Inr (s1, es) \<Rightarrow> offered_along cfg evs s1))"

subsection \<open>State invariants\<close>

text \<open>
  \<open>wf_state\<close>: the two arrays have one slot per exercise, a selected exercise exists and
  is not yet complete, and a submission is pending only while an exercise is selected.
  \<open>setCounts_ok\<close> is the part of the data model's constraint on the workout definition that
  the bound on \<open>completedSets\<close> needs (the data model asks for \<open>setCount > 0\<close>).
\<close>

definition wf_state :: "config \<Rightarrow> state \<Rightarrow> bool" where
  "wf_state cfg s \<longleftrightarrow>
     length (completedSets s) = length (exercises (workout cfg)) \<and>
     length (entries s) = length (exercises (workout cfg)) \<and>
     (inputSubmitted s \<longrightarrow> selectedExercise s \<noteq> None) \<and>
     (\<forall>i. selectedExercise s = Some i \<longrightarrow>
          i < length (exercises (workout cfg)) \<and>
          completedSets s ! i < setCount (exercises (workout cfg) ! i))"

definition setCounts_ok :: "config \<Rightarrow> bool" where
  "setCounts_ok cfg \<longleftrightarrow> (\<forall>e \<in> set (exercises (workout cfg)). 0 \<le> setCount e)"

definition sets_bounded :: "config \<Rightarrow> state \<Rightarrow> bool" where
  "sets_bounded cfg s \<longleftrightarrow>
     length (completedSets s) = length (exercises (workout cfg)) \<and>
     (\<forall>i < length (exercises (workout cfg)).
        completedSets s ! i \<le> setCount (exercises (workout cfg) ! i))"






text \<open>
  The input guard in the words of the operation contract: a finite number above zero, and a
  finite number that is not negative.
\<close>

fun is_positive_number :: "jsnum \<Rightarrow> bool" where
  "is_positive_number (Num x) = (0 < x)"
| "is_positive_number NaN = False"
| "is_positive_number PosInfinity = False"
| "is_positive_number NegInfinity = False"

fun is_nonnegative_number :: "jsnum \<Rightarrow> bool" where
  "is_nonnegative_number (Num x) = (0 \<le> x)"
| "is_nonnegative_number NaN = False"
| "is_nonnegative_number PosInfinity = False"
| "is_nonnegative_number NegInfinity = False"

subsection \<open>Concrete sessions\<close>

text \<open>
  \<open>scenario_config\<close> is the workout of the concrete scenarios: one exercise, two sets, three
  seconds of rest, rank 3 with 45 points of progress. The states below are the ones its
  session passes through; each is tied to the operations by a lemma that runs them.
  \<open>quick_config\<close> has two one-set exercises without rest and \<open>empty_config\<close> no exercise.
  \<open>top_rank_config\<close> starts at rank \<open>2 ^ 53\<close> and grants 60 points a set, \<open>endless_config\<close>
  grants \<open>10 ^ 21\<close> points a set.
\<close>

definition scenario_config :: config where
  "scenario_config = \<lparr> workout = \<lparr> workoutName = ''Scenario'', exercises =
       [ \<lparr> name = ''Lat Pulldown'', targetReps = 10, setCount = 2, defaultWeight = 90, restSeconds = 3 \<rparr> ] \<rparr>,
     rankLabel = ''Level'',
     setPoints = 10, setCurrency = 5, exercisePoints = 25, exerciseCurrency = 12,
     initialRank = 3, initialRankXp = 45, initialStreak = 7, initialCurrency = 250 \<rparr>"

definition quick_config :: config where
  "quick_config = \<lparr> workout = \<lparr> workoutName = ''Quick'', exercises =
       [ \<lparr> name = ''A'', targetReps = 10, setCount = 1, defaultWeight = 90, restSeconds = 0 \<rparr>,
         \<lparr> name = ''B'', targetReps = 12, setCount = 1, defaultWeight = 80, restSeconds = 0 \<rparr> ] \<rparr>,
     rankLabel = ''Level'',
     setPoints = 10, setCurrency = 5, exercisePoints = 25, exerciseCurrency = 12,
     initialRank = 3, initialRankXp = 45, initialStreak = 7, initialCurrency = 250 \<rparr>"

definition empty_config :: config where
  "empty_config = \<lparr> workout = \<lparr> workoutName = ''Empty'', exercises = [] \<rparr>,
     rankLabel = ''Level'',
     setPoints = 10, setCurrency = 5, exercisePoints = 25, exerciseCurrency = 12,
     initialRank = 3, initialRankXp = 45, initialStreak = 7, initialCurrency = 250 \<rparr>"

definition top_rank_config :: config where
  "top_rank_config = scenario_config\<lparr> initialRank := 9007199254740992, setPoints := 60 \<rparr>"

definition endless_config :: config where
  "endless_config = scenario_config\<lparr> setPoints := 1000000000000000000000 \<rparr>"

definition top_rank_result :: state where
  "top_rank_result = (initialState top_rank_config)\<lparr> sessionPoints := Finite 60,
     rankXp := Finite 5, currency := Finite 255 \<rparr>"

definition first_entry :: set_entry where
  "first_entry = \<lparr> setNumber = Num 1, reps = Num 10, weight = Num 90, atTime = ''12:00:00'' \<rparr>"


definition input_state :: state where
  "input_state =
     \<lparr> screen = SInput, startedAt = Some 1000, selectedExercise = Some 0,
       completedSets = [0], entries = [[]],
       currentInput = \<lparr> draftReps = NumberText 10, draftWeight = NumberText 90 \<rparr>,
       restRemaining = 3, restTimerStarted = True, restTimerId = Some IntervalHandle,
       inputSubmitted = False, rank = Finite 3, rankXp = Finite 45, streak = 7,
       currency = Finite 250, sessionPoints = Finite 0 \<rparr>"

definition progress_state :: state where
  "progress_state = input_state\<lparr> screen := SProgress, restRemaining := 0,
     restTimerStarted := False, restTimerId := None \<rparr>"

definition rest_state :: state where
  "rest_state = input_state\<lparr> screen := SRest, entries := [[first_entry]], inputSubmitted := True,
     rankXp := Finite 55, currency := Finite 255, sessionPoints := Finite 10 \<rparr>"

definition advanced_state :: state where
  "advanced_state = rest_state\<lparr> screen := SProgress, completedSets := [1], restRemaining := 0,
     restTimerStarted := False, restTimerId := None, inputSubmitted := False \<rparr>"


definition fractional_state :: state where
  "fractional_state = rest_state\<lparr> entries := [[first_entry\<lparr> reps := Num (5 / 2) \<rparr>]] \<rparr>"

definition pending_state :: state where
  "pending_state =
     \<lparr> screen = SCircuit, startedAt = Some 1000, selectedExercise = None,
       completedSets = [1, 0], entries = [[first_entry], []],
       currentInput = \<lparr> draftReps = Text '''', draftWeight = Text '''' \<rparr>,
       restRemaining = 0, restTimerStarted = False, restTimerId = Some IntervalHandle,
       inputSubmitted = False, rank = Finite 3, rankXp = Finite 80, streak = 7,
       currency = Finite 267, sessionPoints = Finite 35 \<rparr>"

definition stale_state :: state where
  "stale_state = pending_state\<lparr> screen := SProgress, selectedExercise := Some 1,
     currentInput := \<lparr> draftReps = NumberText 12, draftWeight = NumberText 80 \<rparr> \<rparr>"

section \<open>Auxiliary lemmas\<close>

subsection \<open>Rewards\<close>

lemma to_double_small: "\<bar>x\<bar> \<le> 9007199254740992 \<Longrightarrow> to_double x = Finite x"
  by (auto simp: to_double_def round53_def Let_def)

lemma levelUpLoop_below:
  "\<not> js_at_least (rankXp s) 100 \<Longrightarrow> levelUpLoop cfg s es = Some (s, es)"
  by (subst levelUpLoop.simps) simp

lemma levelUpLoop_unfold:
  "js_at_least (rankXp s) 100 \<Longrightarrow>
     levelUpLoop cfg s es =
       levelUpLoop cfg (s\<lparr> rankXp := js_plus (rankXp s) (Finite (- 100)), rank := js_plus (rank s) (Finite 1) \<rparr>)
         (es @ [Toast (LevelUp (rankLabel cfg) (js_plus (rank s) (Finite 1)))])"
  by (subst levelUpLoop.simps) simp

lemma levelUpLoop_frame:
  "levelUpLoop cfg s es = Some y \<Longrightarrow> \<exists>x r. fst y = s\<lparr> rankXp := x, rank := r \<rparr>"
proof (induction rule: levelUpLoop.raw_induct [rotated, consumes 1])
  case (1 loop cfg s es y)
  show ?case
  proof (cases "js_at_least (rankXp s) 100")
    case True
    from True 1(2) have "loop cfg (s\<lparr> rankXp := js_plus (rankXp s) (Finite (- 100)), rank := js_plus (rank s) (Finite 1) \<rparr>)
        (es @ [Toast (LevelUp (rankLabel cfg) (js_plus (rank s) (Finite 1)))]) = Some y"
      by simp
    then have "\<exists>x r. fst y = s\<lparr> rankXp := js_plus (rankXp s) (Finite (- 100)), rank := js_plus (rank s) (Finite 1) \<rparr>\<lparr> rankXp := x, rank := r \<rparr>"
      by (rule 1(1))
    then show ?thesis by auto
  next
    case False
    with 1(2) have "fst y = s\<lparr> rankXp := rankXp s, rank := rank s \<rparr>" by auto
    then show ?thesis by blast
  qed
qed

lemma addRewards_frame:
  assumes "addRewards cfg p c s = Some (s', es)"
  shows "\<exists>sp cu x r. s' = s\<lparr> sessionPoints := sp, currency := cu, rankXp := x, rank := r \<rparr>"
proof -
  from levelUpLoop_frame [OF assms [unfolded addRewards_def]]
  obtain x r where "s' = s\<lparr> sessionPoints := js_plus (sessionPoints s) (to_double p),
      rankXp := js_plus (rankXp s) (to_double p), currency := js_plus (currency s) (to_double c) \<rparr>\<lparr> rankXp := x, rank := r \<rparr>"
    by auto
  then have "s' = s\<lparr> sessionPoints := js_plus (sessionPoints s) (to_double p),
      currency := js_plus (currency s) (to_double c), rankXp := x, rank := r \<rparr>"
    by simp
  then show ?thesis by blast
qed

text \<open>
  While every number stays among the integers that doubles represent one by one (up to
  \<open>2 ^ 53\<close> in size), the loop is exact integer arithmetic, and it ends.
\<close>

lemma levelUpLoop_exact:
  assumes "rankXp s = Finite x" and "rank s = Finite k"
    and "0 \<le> x" and "x \<le> 9007199254740992"
    and "- 9007199254740992 \<le> k" and "k + x div 100 \<le> 9007199254740992"
  shows "\<exists>es'. levelUpLoop cfg s es
           = Some (s\<lparr> rankXp := Finite (x mod 100), rank := Finite (k + x div 100) \<rparr>, es')"
  using assms
proof (induction "nat x" arbitrary: x k s es rule: less_induct)
  case less
  show ?case
  proof (cases "x < 100")
    case True
    with less.prems have "levelUpLoop cfg s es = Some (s, es)"
      by (intro levelUpLoop_below) simp
    moreover from True less.prems
    have "s\<lparr> rankXp := Finite (x mod 100), rank := Finite (k + x div 100) \<rparr> = s"
      by simp
    ultimately show ?thesis by simp
  next
    case False
    let ?s = "s\<lparr> rankXp := js_plus (rankXp s) (Finite (- 100)), rank := js_plus (rank s) (Finite 1) \<rparr>"
    have one: "1 \<le> x div 100" using False by simp
    have xp: "js_plus (rankXp s) (Finite (- 100)) = Finite (x - 100)"
      using less.prems False by (simp add: to_double_small)
    have rk: "js_plus (rank s) (Finite 1) = Finite (k + 1)"
      using less.prems one by (simp add: to_double_small)
    have d: "(x - 100) div 100 = x div 100 - 1" by simp
    have m: "(x - 100) mod 100 = x mod 100" by simp
    have "\<exists>es'. levelUpLoop cfg ?s (es @ [Toast (LevelUp (rankLabel cfg) (js_plus (rank s) (Finite 1)))])
           = Some (?s\<lparr> rankXp := Finite ((x - 100) mod 100),
                        rank := Finite (k + 1 + (x - 100) div 100) \<rparr>, es')"
    proof (rule less.hyps)
      show "nat (x - 100) < nat x" using False by simp
      show "rankXp ?s = Finite (x - 100)" using xp by simp
      show "rank ?s = Finite (k + 1)" using rk by simp
      show "0 \<le> x - 100" using False by simp
      show "x - 100 \<le> 9007199254740992" using less.prems by simp
      show "- 9007199254740992 \<le> k + 1" using less.prems by simp
      show "k + 1 + (x - 100) div 100 \<le> 9007199254740992" using less.prems d by simp
    qed
    then obtain es' where rec:
      "levelUpLoop cfg ?s (es @ [Toast (LevelUp (rankLabel cfg) (js_plus (rank s) (Finite 1)))])
         = Some (s\<lparr> rankXp := Finite (x mod 100), rank := Finite (k + x div 100) \<rparr>, es')"
      by (auto simp: d m)
    have "levelUpLoop cfg s es
        = levelUpLoop cfg ?s (es @ [Toast (LevelUp (rankLabel cfg) (js_plus (rank s) (Finite 1)))])"
      using less.prems False by (intro levelUpLoop_unfold) simp
    with rec show ?thesis by auto
  qed
qed

text \<open>From \<open>10 ^ 21\<close> taking 100 away gives \<open>10 ^ 21\<close> back: the loop cannot return.\<close>

lemma stuck_at_sextillion:
  "js_plus (Finite 1000000000000000000000) (Finite (- 100)) = Finite 1000000000000000000000"
  by (simp add: to_double_def round53_def Let_def)

lemma levelUpLoop_stuck:
  "levelUpLoop cfg s es = Some y \<Longrightarrow> rankXp s \<noteq> Finite 1000000000000000000000"
proof (induction rule: levelUpLoop.raw_induct [rotated, consumes 1])
  case (1 loop cfg s es y)
  show ?case
  proof
    assume x: "rankXp s = Finite 1000000000000000000000"
    let ?s = "s\<lparr> rankXp := js_plus (rankXp s) (Finite (- 100)), rank := js_plus (rank s) (Finite 1) \<rparr>"
    let ?es = "es @ [Toast (LevelUp (rankLabel cfg) (js_plus (rank s) (Finite 1)))]"
    from x have ge: "js_at_least (rankXp s) 100" by simp
    from ge 1(2) have "loop cfg ?s ?es = Some y" by simp
    then have "rankXp ?s \<noteq> Finite 1000000000000000000000" by (rule 1(1))
    with x stuck_at_sextillion show False by simp
  qed
qed

subsection \<open>The shape of the operations\<close>

lemma after_Inr: "after es r = Inr (s', es') \<longleftrightarrow> (\<exists>es0. r = Inr (s', es0) \<and> es' = es @ es0)"
  by (auto simp: after_def split: sum.splits)

lemma after_TypeError: "after es r = Inl TypeError \<longleftrightarrow> r = Inl TypeError"
  by (auto simp: after_def split: sum.splits)

lemma advanceAfterSet_unselected:
  "selectedExercise s = None \<Longrightarrow> advanceAfterSet cfg s = Inr (s, [])"
  by (simp add: advanceAfterSet_def)

lemma submitSet_rejected:
  assumes "selectedExercise s = None \<or> inputSubmitted s \<or> \<not> isFinite r \<or> js_le r 0
             \<or> \<not> isFinite w \<or> js_lt w 0"
  shows "\<exists>es. submitSet cfg r w clock s = Inr (s, es)"
  using assms by (auto simp: submitSet_def split: option.splits)

text \<open>
  An accepted submission: the entry is appended, the reward granted (unless the level-up
  loop never ends), the flag set and the timer started if it was not; then the rest screen,
  or \<open>advanceAfterSet\<close> at once when no rest remains.
\<close>

lemma submitSet_accepted:
  assumes sel: "selectedExercise s = Some idx" and fresh: "\<not> inputSubmitted s"
    and okr: "isFinite r" "\<not> js_le r 0" and okw: "isFinite w" "\<not> js_lt w 0"
    and len: "idx < length (entries s)" and ex: "exerciseByIndex cfg idx = Some ex"
  shows "submitSet cfg r w clock s = Inl NeverReturns \<or> (\<exists>s4 es4.
    entries s4 = (entries s)[idx := entries s ! idx @
        [\<lparr> setNumber = (case nth_opt (completedSets s) idx of None \<Rightarrow> NaN | Some c \<Rightarrow> Num (of_int (c + 1))),
           reps = r, weight = w, atTime = clock \<rparr>]]
    \<and> completedSets s4 = completedSets s
    \<and> selectedExercise s4 = Some idx
    \<and> inputSubmitted s4
    \<and> screen s4 = screen s
    \<and> submitSet cfg r w clock s =
           (if 0 < restRemaining s4 then Inr (s4\<lparr> screen := SRest \<rparr>, es4 @ [Render])
            else after es4 (advanceAfterSet cfg s4)))"
proof -
  define entry where "entry = \<lparr> setNumber = (case nth_opt (completedSets s) idx of None \<Rightarrow> NaN | Some c \<Rightarrow> Num (of_int (c + 1))),
           reps = r, weight = w, atTime = clock \<rparr>"
  define s1 where "s1 = s\<lparr> entries := (entries s)[idx := entries s ! idx @ [entry]] \<rparr>"
  show ?thesis
  proof (cases "addRewards cfg (setPoints cfg) (setCurrency cfg) s1")
    case None
    then have "submitSet cfg r w clock s = Inl NeverReturns"
      using sel fresh okr okw len
      by (simp add: submitSet_def nth_opt_def [of "entries s"] Let_def entry_def [symmetric]
                    s1_def [symmetric])
    then show ?thesis by simp
  next
    case (Some res)
    obtain s2 es1 where res: "res = (s2, es1)" by (cases res)
    with Some have rew: "addRewards cfg (setPoints cfg) (setCurrency cfg) s1 = Some (s2, es1)"
      by simp
    from addRewards_frame [OF rew] obtain sp cu x rk where s2:
      "s2 = s1\<lparr> sessionPoints := sp, currency := cu, rankXp := x, rank := rk \<rparr>"
      by blast
    define s3 where "s3 = s2\<lparr> inputSubmitted := True \<rparr>"
    define t where "t = (if \<not> restTimerStarted s3
                         then beginRestTimer (s3\<lparr> restRemaining := restSeconds ex, restTimerStarted := True \<rparr>)
                         else (s3, []))"
    have f1: "entries (fst t) = (entries s)[idx := entries s ! idx @ [entry]]"
      and f2: "completedSets (fst t) = completedSets s"
      and f3: "selectedExercise (fst t) = Some idx"
      and f4: "inputSubmitted (fst t)"
      and f5: "screen (fst t) = screen s"
      using sel by (simp_all add: t_def s3_def s2 s1_def beginRestTimer_def stopRestTimer_def)
    have rts: "restTimerStarted s3 = restTimerStarted s2"
      by (simp add: s3_def)
    have body: "submitSet cfg r w clock s =
             (if 0 < restRemaining (fst t) then Inr ((fst t)\<lparr> screen := SRest \<rparr>, (es1 @ snd t) @ [Render])
              else after (es1 @ snd t) (advanceAfterSet cfg (fst t)))"
      using sel fresh okr okw len ex rew
      by (simp add: submitSet_def nth_opt_def [of "entries s"] Let_def entry_def [symmetric]
                    s1_def [symmetric] s3_def [symmetric] t_def split_beta rts)
    from f1 [unfolded entry_def] f2 f3 f4 f5 body show ?thesis
      by blast
  qed
qed


subsection \<open>Well-formed states\<close>

lemma wf_initialState: "wf_state cfg (initialState cfg)"
  by (simp add: wf_state_def initialState_def)

lemma wf_startWorkout: "wf_state cfg s \<Longrightarrow> wf_state cfg (fst (startWorkout cfg now s))"
  by (auto simp: wf_state_def startWorkout_def Let_def)

lemma wf_restartSession: "wf_state cfg (fst (restartSession cfg s))"
  by (simp add: wf_state_def restartSession_def stopRestTimer_def)

lemma wf_chooseExercise:
  "wf_state cfg s \<Longrightarrow> chooseExercise cfg index s = Inr (s', es) \<Longrightarrow> wf_state cfg s'"
  by (auto simp: wf_state_def chooseExercise_def Let_def exerciseByIndex_def nth_opt_def undef_ge_def
           split: option.splits if_splits)

lemma wf_enterResultData:
  "wf_state cfg s \<Longrightarrow> enterResultData cfg s = Inr (s', es) \<Longrightarrow> wf_state cfg s'"
  by (auto simp: wf_state_def enterResultData_def beginRestTimer_def stopRestTimer_def
           split: option.splits if_splits)


lemma wf_advanceAfterSet:
  "wf_state cfg s \<Longrightarrow> advanceAfterSet cfg s = Inr (s', es) \<Longrightarrow> wf_state cfg s'"
  by (auto simp: wf_state_def advanceAfterSet_def Let_def exerciseByIndex_def nth_opt_def
                 undef_ge_def undef_lt_def
           split: option.splits if_splits prod.splits dest!: addRewards_frame)

lemma wf_onRestTimerFinished:
  "wf_state cfg s \<Longrightarrow> onRestTimerFinished cfg s = Inr (s', es) \<Longrightarrow> wf_state cfg s'"
proof -
  assume wf: "wf_state cfg s" and fin: "onRestTimerFinished cfg s = Inr (s', es)"
  have wf1: "wf_state cfg (fst (stopRestTimer s))"
    using wf by (simp add: wf_state_def stopRestTimer_def)
  show ?thesis
  proof (cases "inputSubmitted (fst (stopRestTimer s))")
    case True
    with fin obtain es0 where "advanceAfterSet cfg (fst (stopRestTimer s)) = Inr (s', es0)"
      by (auto simp: onRestTimerFinished_def Let_def after_Inr split: prod.splits)
    with wf1 show ?thesis by (rule wf_advanceAfterSet)
  next
    case False
    with fin have "s' = (fst (stopRestTimer s))\<lparr> screen := SInput \<rparr>"
      by (auto simp: onRestTimerFinished_def Let_def split: prod.splits)
    with wf1 show ?thesis by (simp add: wf_state_def)
  qed
qed

lemma wf_restTick:
  "wf_state cfg s \<Longrightarrow> restTick cfg s = Inr (s', es) \<Longrightarrow> wf_state cfg s'"
proof -
  assume wf: "wf_state cfg s" and tick: "restTick cfg s = Inr (s', es)"
  have wf1: "wf_state cfg (s\<lparr> restRemaining := restRemaining s - 1 \<rparr>)"
    using wf by (simp add: wf_state_def)
  from tick consider
      (done1) es0 where "onRestTimerFinished cfg (s\<lparr> restRemaining := restRemaining s - 1 \<rparr>) = Inr (s', es0)"
    | (count) "s' = s\<lparr> restRemaining := restRemaining s - 1 \<rparr>"
    | (done0) "onRestTimerFinished cfg s = Inr (s', es)"
    by (auto simp: restTick_def Let_def after_Inr split: if_splits)
  then show ?thesis
  proof cases
    case done1 with wf1 show ?thesis by (rule wf_onRestTimerFinished)
  next
    case count with wf1 show ?thesis by simp
  next
    case done0 with wf show ?thesis by (rule wf_onRestTimerFinished)
  qed
qed

lemma submitSet_returned:
  assumes wf: "wf_state cfg s"
    and acc: "\<not> (selectedExercise s = None \<or> inputSubmitted s \<or> \<not> isFinite r \<or> js_le r 0
             \<or> \<not> isFinite w \<or> js_lt w 0)"
    and sub: "submitSet cfg r w clock s = Inr (s', es)"
  shows "\<exists>idx s4. selectedExercise s = Some idx \<and> idx < length (exercises (workout cfg))
      \<and> entries s4 = (entries s)[idx := entries s ! idx @
            [\<lparr> setNumber = Num (of_int (completedSets s ! idx + 1)),
               reps = r, weight = w, atTime = clock \<rparr>]]
      \<and> completedSets s4 = completedSets s
      \<and> selectedExercise s4 = Some idx
      \<and> inputSubmitted s4
      \<and> screen s4 = screen s
      \<and> wf_state cfg s4
      \<and> (if 0 < restRemaining s4 then s' = s4\<lparr> screen := SRest \<rparr>
          else (\<exists>es0. advanceAfterSet cfg s4 = Inr (s', es0)))"
proof -
  from acc obtain idx where sel: "selectedExercise s = Some idx" by auto
  from wf sel have idx: "idx < length (exercises (workout cfg))"
    and len: "idx < length (entries s)" and lenc: "idx < length (completedSets s)"
    by (auto simp: wf_state_def)
  from idx have ex: "exerciseByIndex cfg idx = Some (exercises (workout cfg) ! idx)"
    by (simp add: exerciseByIndex_def nth_opt_def)
  from lenc have setno: "(case nth_opt (completedSets s) idx of None \<Rightarrow> NaN | Some c \<Rightarrow> Num (of_int (c + 1)))
      = Num (of_int (completedSets s ! idx + 1))"
    by (simp add: nth_opt_def)
  have "submitSet cfg r w clock s \<noteq> Inl NeverReturns" using sub by simp
  with submitSet_accepted [OF sel _ _ _ _ _ len ex, of r w clock] acc
  obtain s4 es4 where
    e4: "entries s4 = (entries s)[idx := entries s ! idx @
        [\<lparr> setNumber = (case nth_opt (completedSets s) idx of None \<Rightarrow> NaN | Some c \<Rightarrow> Num (of_int (c + 1))),
           reps = r, weight = w, atTime = clock \<rparr>]]"
    and c4: "completedSets s4 = completedSets s"
    and sel4: "selectedExercise s4 = Some idx"
    and sub4: "inputSubmitted s4"
    and scr4: "screen s4 = screen s"
    and body: "submitSet cfg r w clock s =
           (if 0 < restRemaining s4 then Inr (s4\<lparr> screen := SRest \<rparr>, es4 @ [Render])
            else after es4 (advanceAfterSet cfg s4))"
    by blast
  have wf4: "wf_state cfg s4"
    using wf sel e4 c4 sel4 by (simp add: wf_state_def)
  have last: "if 0 < restRemaining s4 then s' = s4\<lparr> screen := SRest \<rparr>
          else (\<exists>es0. advanceAfterSet cfg s4 = Inr (s', es0))"
  proof (cases "0 < restRemaining s4")
    case True
    with body sub show ?thesis by simp
  next
    case False
    with body sub have "after es4 (advanceAfterSet cfg s4) = Inr (s', es)" by simp
    then have "\<exists>es0. advanceAfterSet cfg s4 = Inr (s', es0)"
      by (auto simp: after_Inr)
    with False show ?thesis by simp
  qed
  from sel idx e4 [unfolded setno] c4 sel4 sub4 scr4 wf4 last show ?thesis
    by blast
qed

lemma wf_submitSet:
  assumes wf: "wf_state cfg s" and sub: "submitSet cfg r w clock s = Inr (s', es)"
  shows "wf_state cfg s'"
proof (cases "selectedExercise s = None \<or> inputSubmitted s \<or> \<not> isFinite r \<or> js_le r 0
             \<or> \<not> isFinite w \<or> js_lt w 0")
  case True
  from submitSet_rejected [OF True, of cfg clock] sub have "s' = s" by auto
  with wf show ?thesis by simp
next
  case False
  from submitSet_returned [OF wf False sub] obtain idx s4 where
    wf4: "wf_state cfg s4"
    and last: "if 0 < restRemaining s4 then s' = s4\<lparr> screen := SRest \<rparr>
          else (\<exists>es0. advanceAfterSet cfg s4 = Inr (s', es0))"
    by blast
  show ?thesis
  proof (cases "0 < restRemaining s4")
    case True
    with last have "s' = s4\<lparr> screen := SRest \<rparr>" by simp
    with wf4 show ?thesis by (simp add: wf_state_def)
  next
    case False
    with last obtain es0 where "advanceAfterSet cfg s4 = Inr (s', es0)" by auto
    with wf4 show ?thesis by (rule wf_advanceAfterSet)
  qed
qed

lemma wf_step:
  assumes "wf_state cfg s" and "step cfg ev s = Inr (s', es)"
  shows "wf_state cfg s'"
proof (cases ev)
  case (StartWorkout now)
  with assms wf_startWorkout [of cfg s now] show ?thesis by auto
next
  case (ChooseExercise index)
  with assms show ?thesis by (auto intro: wf_chooseExercise)
next
  case EnterResultData
  with assms show ?thesis by (auto intro: wf_enterResultData)
next
  case (SubmitSet r w clock)
  with assms show ?thesis by (auto intro: wf_submitSet)
next
  case RestartSession
  with assms wf_restartSession [of cfg s] show ?thesis by auto
next
  case RestTick
  with assms show ?thesis by (auto intro: wf_restTick split: if_splits)
qed

lemma reachable_wf: "reachable cfg s \<Longrightarrow> wf_state cfg s"
  by (induction rule: reachable.induct) (auto intro: wf_initialState wf_step)

lemma run_reachable:
  "reachable cfg s \<Longrightarrow> run cfg evs s = Inr (s', es) \<Longrightarrow> reachable cfg s'"
proof (induction evs arbitrary: s es)
  case Nil
  then show ?case by simp
next
  case (Cons ev evs)
  from Cons.prems(2) obtain s1 es1 es2 where st: "step cfg ev s = Inr (s1, es1)"
    and rest: "run cfg evs s1 = Inr (s', es2)"
    by (auto simp: after_Inr split: sum.splits)
  from Cons.prems(1) st have "reachable cfg s1" by (rule reachable_step)
  from Cons.IH [OF this rest] show ?case .
qed

text \<open>
  No operation raises in a well-formed state, so the reachable states lose nothing to a
  \<^verbatim>\<open>TypeError\<close> by following only the steps that return.
\<close>

lemma safe_advanceAfterSet:
  "wf_state cfg s \<Longrightarrow> advanceAfterSet cfg s \<noteq> Inl TypeError"
  by (auto simp: wf_state_def advanceAfterSet_def Let_def exerciseByIndex_def nth_opt_def
           split: option.splits prod.splits)

lemma safe_onRestTimerFinished:
  assumes "wf_state cfg s"
  shows "onRestTimerFinished cfg s \<noteq> Inl TypeError"
proof -
  have "wf_state cfg (fst (stopRestTimer s))"
    using assms by (simp add: wf_state_def stopRestTimer_def)
  from safe_advanceAfterSet [OF this] show ?thesis
    by (auto simp: onRestTimerFinished_def Let_def after_TypeError split: prod.splits)
qed

lemma safe_restTick:
  assumes "wf_state cfg s"
  shows "restTick cfg s \<noteq> Inl TypeError"
proof -
  have "wf_state cfg (s\<lparr> restRemaining := restRemaining s - 1 \<rparr>)"
    using assms by (simp add: wf_state_def)
  from safe_onRestTimerFinished [OF this] safe_onRestTimerFinished [OF assms]
  show ?thesis
    by (auto simp: restTick_def Let_def after_TypeError)
qed

lemma safe_chooseExercise:
  "chooseExercise cfg index s \<noteq> Inl TypeError"
  by (auto simp: chooseExercise_def Let_def lockedExerciseIndex_def split: option.splits if_splits)

lemma safe_enterResultData:
  "wf_state cfg s \<Longrightarrow> enterResultData cfg s \<noteq> Inl TypeError"
  by (auto simp: wf_state_def enterResultData_def exerciseByIndex_def nth_opt_def
           split: option.splits prod.splits)

lemma safe_submitSet:
  assumes wf: "wf_state cfg s"
  shows "submitSet cfg r w clock s \<noteq> Inl TypeError"
proof (cases "selectedExercise s = None \<or> inputSubmitted s \<or> \<not> isFinite r \<or> js_le r 0
             \<or> \<not> isFinite w \<or> js_lt w 0")
  case True
  from submitSet_rejected [OF True, of cfg clock] show ?thesis by auto
next
  case False
  then obtain idx where sel: "selectedExercise s = Some idx" by auto
  from wf sel have idx: "idx < length (exercises (workout cfg))"
    and len: "idx < length (entries s)"
    by (auto simp: wf_state_def)
  from idx have ex: "exerciseByIndex cfg idx = Some (exercises (workout cfg) ! idx)"
    by (simp add: exerciseByIndex_def nth_opt_def)
  from submitSet_accepted [OF sel _ _ _ _ _ len ex, of r w clock] False
  consider (hang) "submitSet cfg r w clock s = Inl NeverReturns"
    | (go) s4 es4 e where "entries s4 = (entries s)[idx := entries s ! idx @ [e]]"
        "completedSets s4 = completedSets s" "selectedExercise s4 = Some idx"
        "submitSet cfg r w clock s =
           (if 0 < restRemaining s4 then Inr (s4\<lparr> screen := SRest \<rparr>, es4 @ [Render])
            else after es4 (advanceAfterSet cfg s4))"
    by blast
  then show ?thesis
  proof cases
    case hang
    then show ?thesis by simp
  next
    case go
    have "wf_state cfg s4"
      using wf sel go(1,2,3) by (simp add: wf_state_def)
    from safe_advanceAfterSet [OF this] go(4) show ?thesis
      by (auto simp: after_TypeError)
  qed
qed

lemma safe_step:
  assumes "wf_state cfg s"
  shows "step cfg ev s \<noteq> Inl TypeError"
proof (cases ev)
  case (StartWorkout now)
  then show ?thesis by simp
next
  case (ChooseExercise index)
  then show ?thesis using safe_chooseExercise by simp
next
  case EnterResultData
  then show ?thesis using safe_enterResultData [OF assms] by simp
next
  case (SubmitSet r w clock)
  then show ?thesis using safe_submitSet [OF assms] by simp
next
  case RestartSession
  then show ?thesis by simp
next
  case RestTick
  then show ?thesis using safe_restTick [OF assms] by simp
qed

lemma reachable_never_raises: "reachable cfg s \<Longrightarrow> step cfg ev s \<noteq> Inl TypeError"
  by (rule safe_step) (rule reachable_wf)

subsection \<open>The bound on completed sets\<close>

lemma bounded_initialState: "setCounts_ok cfg \<Longrightarrow> sets_bounded cfg (initialState cfg)"
  by (simp add: setCounts_ok_def sets_bounded_def initialState_def)

lemma bounded_restartSession: "setCounts_ok cfg \<Longrightarrow> sets_bounded cfg (fst (restartSession cfg s))"
  by (simp add: setCounts_ok_def sets_bounded_def restartSession_def stopRestTimer_def)

lemma bounded_cong: "completedSets s' = completedSets s \<Longrightarrow> sets_bounded cfg s \<Longrightarrow> sets_bounded cfg s'"
  by (simp add: sets_bounded_def)

lemma startWorkout_completedSets: "completedSets (fst (startWorkout cfg now s)) = completedSets s"
  by (simp add: startWorkout_def Let_def)

lemma chooseExercise_completedSets:
  "chooseExercise cfg index s = Inr (s', es) \<Longrightarrow> completedSets s' = completedSets s"
  by (auto simp: chooseExercise_def Let_def split: option.splits if_splits)

lemma enterResultData_completedSets:
  "enterResultData cfg s = Inr (s', es) \<Longrightarrow> completedSets s' = completedSets s"
  by (auto simp: enterResultData_def beginRestTimer_def stopRestTimer_def split: option.splits if_splits)

lemma bounded_advanceAfterSet:
  "sets_bounded cfg s \<Longrightarrow> advanceAfterSet cfg s = Inr (s', es) \<Longrightarrow> sets_bounded cfg s'"
  by (auto simp: sets_bounded_def advanceAfterSet_def Let_def exerciseByIndex_def nth_opt_def
                 undef_ge_def undef_lt_def nth_list_update
           split: option.splits if_splits prod.splits dest!: addRewards_frame)

lemma bounded_onRestTimerFinished:
  assumes b: "sets_bounded cfg s" and fin: "onRestTimerFinished cfg s = Inr (s', es)"
  shows "sets_bounded cfg s'"
proof -
  have b1: "sets_bounded cfg (fst (stopRestTimer s))"
    using b by (simp add: sets_bounded_def stopRestTimer_def)
  show ?thesis
  proof (cases "inputSubmitted (fst (stopRestTimer s))")
    case True
    with fin obtain es0 where "advanceAfterSet cfg (fst (stopRestTimer s)) = Inr (s', es0)"
      by (auto simp: onRestTimerFinished_def Let_def after_Inr split: prod.splits)
    with b1 show ?thesis by (rule bounded_advanceAfterSet)
  next
    case False
    with fin have "s' = (fst (stopRestTimer s))\<lparr> screen := SInput \<rparr>"
      by (auto simp: onRestTimerFinished_def Let_def split: prod.splits)
    with b1 show ?thesis by (simp add: sets_bounded_def)
  qed
qed

lemma bounded_restTick:
  assumes b: "sets_bounded cfg s" and tick: "restTick cfg s = Inr (s', es)"
  shows "sets_bounded cfg s'"
proof -
  have b1: "sets_bounded cfg (s\<lparr> restRemaining := restRemaining s - 1 \<rparr>)"
    using b by (simp add: sets_bounded_def)
  from tick consider
      (done1) es0 where "onRestTimerFinished cfg (s\<lparr> restRemaining := restRemaining s - 1 \<rparr>) = Inr (s', es0)"
    | (count) "s' = s\<lparr> restRemaining := restRemaining s - 1 \<rparr>"
    | (done0) "onRestTimerFinished cfg s = Inr (s', es)"
    by (auto simp: restTick_def Let_def after_Inr split: if_splits)
  then show ?thesis
  proof cases
    case done1 with b1 show ?thesis by (rule bounded_onRestTimerFinished)
  next
    case count with b1 show ?thesis by simp
  next
    case done0 with b show ?thesis by (rule bounded_onRestTimerFinished)
  qed
qed

lemma bounded_submitSet:
  assumes wf: "wf_state cfg s" and b: "sets_bounded cfg s"
    and sub: "submitSet cfg r w clock s = Inr (s', es)"
  shows "sets_bounded cfg s'"
proof (cases "selectedExercise s = None \<or> inputSubmitted s \<or> \<not> isFinite r \<or> js_le r 0
             \<or> \<not> isFinite w \<or> js_lt w 0")
  case True
  from submitSet_rejected [OF True, of cfg clock] sub have "s' = s" by auto
  with b show ?thesis by simp
next
  case False
  from submitSet_returned [OF wf False sub] obtain idx s4 where
    c4: "completedSets s4 = completedSets s"
    and last: "if 0 < restRemaining s4 then s' = s4\<lparr> screen := SRest \<rparr>
          else (\<exists>es0. advanceAfterSet cfg s4 = Inr (s', es0))"
    by blast
  have b4: "sets_bounded cfg s4"
    using b c4 by (simp add: sets_bounded_def)
  show ?thesis
  proof (cases "0 < restRemaining s4")
    case True
    with last have "s' = s4\<lparr> screen := SRest \<rparr>" by simp
    with b4 show ?thesis by (simp add: sets_bounded_def)
  next
    case False
    with last obtain es0 where "advanceAfterSet cfg s4 = Inr (s', es0)" by auto
    with b4 show ?thesis by (rule bounded_advanceAfterSet)
  qed
qed

lemma bounded_step:
  assumes ok: "setCounts_ok cfg" and wf: "wf_state cfg s" and b: "sets_bounded cfg s"
    and st: "step cfg ev s = Inr (s', es)"
  shows "sets_bounded cfg s'"
proof (cases ev)
  case (StartWorkout now)
  with st have "s' = fst (startWorkout cfg now s)" by auto
  with b show ?thesis by (simp add: bounded_cong [OF startWorkout_completedSets])
next
  case (ChooseExercise index)
  with st b show ?thesis by (auto intro: bounded_cong [OF chooseExercise_completedSets])
next
  case EnterResultData
  with st b show ?thesis by (auto intro: bounded_cong [OF enterResultData_completedSets])
next
  case (SubmitSet r w clock)
  with st wf b show ?thesis by (auto intro: bounded_submitSet)
next
  case RestartSession
  with st bounded_restartSession [OF ok, of s] show ?thesis by auto
next
  case RestTick
  with st b show ?thesis by (auto intro: bounded_restTick split: if_splits)
qed

lemma reachable_bounded: "reachable cfg s \<Longrightarrow> setCounts_ok cfg \<Longrightarrow> sets_bounded cfg s"
proof (induction rule: reachable.induct)
  case reachable_init
  then show ?case by (rule bounded_initialState)
next
  case (reachable_step s ev s' es)
  then show ?case using bounded_step reachable_wf by blast
qed

subsection \<open>Entries and completed sets\<close>













subsection \<open>Set numbers of the entries\<close>
















subsection \<open>States the page can lead to\<close>


lemma offered_needs_selection:
  "offered cfg s EnterResultData \<Longrightarrow> selectedExercise s \<noteq> None"
  "offered cfg s (SubmitSet r w clock) \<Longrightarrow> selectedExercise s \<noteq> None"
  by (auto simp: shownExercise_def split: option.splits)







subsection \<open>Running the concrete sessions\<close>

lemmas eval_defs = initialState_def startWorkout_def
        chooseExercise_def enterResultData_def submitSet_def restartSession_def restTick_def
        onRestTimerFinished_def advanceAfterSet_def notifyTimerDone_def
        allExercisesComplete_def lockedExerciseIndex_def
        exerciseByIndex_def nth_opt_def undef_ge_def undef_lt_def beginRestTimer_def
        stopRestTimer_def after_def to_double_small Let_def

lemmas reward_defs = addRewards_def levelUpLoop_unfold levelUpLoop_below

lemmas page_defs = shownExercise_def circuitShown_def

lemma floor_five_halves: "\<lfloor>5 / 2 :: rat\<rfloor> = 2"
  by (rule floor_unique) simp_all

lemma run_input_state:
  "run scenario_config [StartWorkout 1000, ChooseExercise 0, EnterResultData] (initialState scenario_config)
     = Inr (input_state, [Render, Render, SetInterval, Render])"
  by (simp add: scenario_config_def input_state_def eval_defs)

lemma reachable_input_state: "reachable scenario_config input_state"
  using run_reachable [OF reachable_init run_input_state] .

lemma step_input_state:
  "enterResultData scenario_config progress_state = Inr (input_state, [SetInterval, Render])"
  by (simp add: scenario_config_def progress_state_def input_state_def eval_defs)

lemma step_rest_state:
  "submitSet scenario_config (Num 10) (Num 90) ''12:00:00'' input_state = Inr (rest_state, [Render])"
  by (simp add: scenario_config_def input_state_def rest_state_def first_entry_def eval_defs
        reward_defs)

lemma reachable_rest_state: "reachable scenario_config rest_state"
  using reachable_input_state step_rest_state
  by (rule reachable_step [where ev = "SubmitSet (Num 10) (Num 90) ''12:00:00''", simplified])




lemma run_advanced_state:
  "run scenario_config [RestTick, RestTick, RestTick] rest_state
     = Inr (advanced_state, [Render, Render, Render, ClearInterval,
              Toast (RestComplete (Some ''Lat Pulldown'')), Render])"
  by (simp add: scenario_config_def input_state_def rest_state_def advanced_state_def first_entry_def
        eval_defs reward_defs)

lemma reachable_advanced_state: "reachable scenario_config advanced_state"
  using reachable_rest_state run_advanced_state by (rule run_reachable)






lemma setCounts_ok_scenario: "setCounts_ok scenario_config"
  by (simp add: setCounts_ok_def scenario_config_def)

lemma step_fractional_state:
  "submitSet scenario_config (Num (5 / 2)) (Num 90) ''12:00:00'' input_state = Inr (fractional_state, [Render])"
  by (simp add: scenario_config_def input_state_def rest_state_def fractional_state_def first_entry_def
        eval_defs reward_defs)

lemma run_pending_state:
  "run quick_config [StartWorkout 1000, ChooseExercise 0, EnterResultData,
       SubmitSet (Num 10) (Num 90) ''12:00:00''] (initialState quick_config)
     = Inr (pending_state, [Render, Render, SetInterval, Render, Render])"
  by (simp add: quick_config_def pending_state_def first_entry_def eval_defs reward_defs)

lemma step_stale_state:
  "chooseExercise quick_config 1 pending_state = Inr (stale_state, [Render])"
  by (simp add: quick_config_def pending_state_def stale_state_def first_entry_def eval_defs)

lemma tick_stale_state:
  "step quick_config RestTick stale_state
     = Inr (stale_state\<lparr> restTimerId := None, screen := SInput \<rparr>,
            [ClearInterval, Toast (RestComplete (Some ''B'')), Render, Toast TimerEnded])"
  by (simp add: quick_config_def pending_state_def stale_state_def first_entry_def eval_defs)

lemma page_stale_state:
  "offered_along quick_config [StartWorkout 1000, ChooseExercise 0, EnterResultData,
       SubmitSet (Num 10) (Num 90) ''12:00:00'', ChooseExercise 1, RestTick] (initialState quick_config)"
  by (simp add: quick_config_def eval_defs reward_defs page_defs)

text \<open>The rewards at the edge of the doubles.\<close>

lemma to_double_above: "to_double 9007199254740993 = Finite 9007199254740992"
  by (simp add: to_double_def round53_def Let_def)

lemma top_rank_rewards:
  "addRewards top_rank_config 60 5 (initialState top_rank_config)
     = Some (top_rank_result, [Toast (LevelUp ''Level'' (Finite 9007199254740992))])"
  by (simp add: top_rank_config_def top_rank_result_def scenario_config_def initialState_def
        to_double_small to_double_above reward_defs)

lemma sextillion_absorbs:
  "js_plus (Finite 45) (to_double 1000000000000000000000) = Finite 1000000000000000000000"
  by (simp add: to_double_def round53_def Let_def)

lemma endless_rewards:
  assumes "rankXp s = Finite 45"
  shows "addRewards cfg 1000000000000000000000 c s = None"
proof (cases "addRewards cfg 1000000000000000000000 c s")
  case None
  then show ?thesis .
next
  case (Some y)
  from levelUpLoop_stuck [OF Some [unfolded addRewards_def]] assms sextillion_absorbs
  show ?thesis by simp
qed

section \<open>The claims\<close>

subsection \<open>C1: completed sets never exceed the set count\<close>

text \<open>
  Claim C1. For a workout whose set counts are not negative, in every reachable state and
  for every exercise index \<open>i\<close>, \<open>completedSets[i]\<close> is at most \<open>exercises[i].setCount\<close>; and
  \<open>advanceAfterSet\<close>, the one operation that increments \<open>completedSets\<close>, does not push it
  past \<open>setCount\<close> from such a state.
\<close>

theorem completedSets_never_exceed_setCount:
  assumes "setCounts_ok cfg" and "reachable cfg s" and "i < length (exercises (workout cfg))"
  shows "i < length (completedSets s)
       \<and> completedSets s ! i \<le> setCount (exercises (workout cfg) ! i)
       \<and> (\<forall>s' es. advanceAfterSet cfg s = Inr (s', es) \<longrightarrow>
              completedSets s' ! i \<le> setCount (exercises (workout cfg) ! i))"
proof -
  have b: "sets_bounded cfg s"
    using assms(2,1) by (rule reachable_bounded)
  have "\<And>s' es. advanceAfterSet cfg s = Inr (s', es) \<Longrightarrow> sets_bounded cfg s'"
    using b by (rule bounded_advanceAfterSet)
  with b assms(3) show ?thesis
    by (auto simp: sets_bounded_def)
qed

theorem completedSets_never_exceed_setCount_witness:
  "setCounts_ok scenario_config \<and> reachable scenario_config advanced_state
     \<and> (0::nat) < length (exercises (workout scenario_config))
     \<and> completedSets advanced_state ! 0 = 1
     \<and> completedSets advanced_state ! 0 \<le> setCount (exercises (workout scenario_config) ! 0)"
  using completedSets_never_exceed_setCount [OF setCounts_ok_scenario reachable_advanced_state, of 0]
    setCounts_ok_scenario reachable_advanced_state
  by (simp add: scenario_config_def advanced_state_def)

subsection \<open>C2: re-selection and the pending rest timer\<close>

text \<open>
  Claim C2 asks that a successful \<open>chooseExercise\<close> stop a pending rest timer before it
  resets the per-set state. \<open>restartSession\<close> calls \<open>stopRestTimer\<close>; \<open>chooseExercise\<close> does
  not. With exercises that have no rest, the timer started for exercise A is still live when
  the set is submitted and the session advances at once; exercise B is then selected, the
  timer stays live, and its next tick runs \<open>onRestTimerFinished\<close> against the state of B:
  the screen jumps to the input screen although no rest was started for B.
\<close>

theorem reselect_leaves_timer_pending:
  "run quick_config [StartWorkout 1000, ChooseExercise 0, EnterResultData,
       SubmitSet (Num 10) (Num 90) ''12:00:00''] (initialState quick_config)
     = Inr (pending_state, [Render, Render, SetInterval, Render, Render])
   \<and> restTimerId pending_state = Some IntervalHandle
   \<and> step quick_config (ChooseExercise 1) pending_state = Inr (stale_state, [Render])
   \<and> selectedExercise stale_state = Some 1
   \<and> restTimerId stale_state = Some IntervalHandle
   \<and> step quick_config RestTick stale_state
     = Inr (stale_state\<lparr> restTimerId := None, screen := SInput \<rparr>,
            [ClearInterval, Toast (RestComplete (Some ''B'')), Render, Toast TimerEnded])"
  using run_pending_state step_stale_state tick_stale_state
  by (simp add: pending_state_def stale_state_def)

theorem reselect_leaves_timer_pending_witness:
  "screen stale_state = SProgress
     \<and> \<not> restTimerStarted stale_state
     \<and> step quick_config RestTick stale_state
          = Inr (stale_state\<lparr> restTimerId := None, screen := SInput \<rparr>,
                 [ClearInterval, Toast (RestComplete (Some ''B'')), Render, Toast TimerEnded])"
  using reselect_leaves_timer_pending
  by (simp add: stale_state_def pending_state_def)

text \<open>
  Every event of this session is one the page delivers (\<open>page_stale_state\<close>): the circuit
  screen shown after the last set of A holds the select button of B, and the timer task of A
  is still live. The same holds whenever a selection succeeds: \<open>chooseExercise\<close> never
  touches the timer handle.
\<close>

lemma chooseExercise_keeps_timer:
  "chooseExercise cfg index s = Inr (s', es) \<Longrightarrow> restTimerId s' = restTimerId s \<and> ClearInterval \<notin> set es"
  by (auto simp: chooseExercise_def Let_def split: option.splits if_splits)

subsection \<open>C3: rank progress\<close>

text \<open>
  Claim C3, as amended. For an integer reward \<open>p \<ge> 0\<close>, a starting \<open>rankXp\<close> value \<open>old\<close> in
  \<open>[0, 100)\<close> and a starting rank \<open>k\<close>, as long as \<open>old + p\<close>, \<open>k\<close> and \<open>k + (old + p) div 100\<close>
  stay within \<open>2 ^ 53\<close> in size (the integers that the script's numbers hold one by one):
  \<open>addRewards p c\<close> returns, the new \<open>rankXp\<close> is \<open>(old + p) mod 100\<close> and the new rank is
  \<open>k + (old + p) div 100\<close>, however many thresholds \<open>p\<close> crosses; \<open>rankXp\<close> stays in \<open>[0, 100)\<close>.
\<close>

theorem addRewards_rank_progress:
  assumes "0 \<le> p" and "rankXp s = Finite old" and "0 \<le> old" and "old < 100"
    and "rank s = Finite k"
    and "old + p \<le> 9007199254740992"
    and "- 9007199254740992 \<le> k" and "k + (old + p) div 100 \<le> 9007199254740992"
  shows "\<exists>s' es. addRewards cfg p c s = Some (s', es)
       \<and> rankXp s' = Finite ((old + p) mod 100)
       \<and> rank s' = Finite (k + (old + p) div 100)
       \<and> 0 \<le> (old + p) mod 100 \<and> (old + p) mod 100 < 100"
proof -
  let ?s0 = "s\<lparr> sessionPoints := js_plus (sessionPoints s) (to_double p),
                 rankXp := js_plus (rankXp s) (to_double p),
                 currency := js_plus (currency s) (to_double c) \<rparr>"
  have p: "to_double p = Finite p"
    using assms(1,3,6) by (intro to_double_small) simp
  have sum: "to_double (old + p) = Finite (old + p)"
    using assms(1,3,6) by (intro to_double_small) simp
  have xp: "rankXp ?s0 = Finite (old + p)"
    using assms(2) p sum by simp
  have rk: "rank ?s0 = Finite k"
    using assms(5) by simp
  have nonneg: "0 \<le> old + p"
    using assms(1,3) by simp
  from levelUpLoop_exact [OF xp rk nonneg assms(6,7,8), of cfg "[]"]
  obtain es where "levelUpLoop cfg ?s0 []
      = Some (?s0\<lparr> rankXp := Finite ((old + p) mod 100), rank := Finite (k + (old + p) div 100) \<rparr>, es)"
    by blast
  then have "addRewards cfg p c s
      = Some (?s0\<lparr> rankXp := Finite ((old + p) mod 100), rank := Finite (k + (old + p) div 100) \<rparr>, es)"
    by (simp add: addRewards_def)
  then show ?thesis by simp
qed

theorem addRewards_rank_progress_witness:
  "(0::int) \<le> 260
     \<and> rankXp (initialState DEFAULT_CONFIG) = Finite 45
     \<and> rank (initialState DEFAULT_CONFIG) = Finite 3
     \<and> (\<exists>s' es. addRewards DEFAULT_CONFIG 260 5 (initialState DEFAULT_CONFIG) = Some (s', es)
           \<and> rankXp s' = Finite 5 \<and> rank s' = Finite 6)"
  using addRewards_rank_progress [of 260 "initialState DEFAULT_CONFIG" 45 3 DEFAULT_CONFIG 5]
  by (simp add: initialState_def DEFAULT_CONFIG_def to_double_small)

text \<open>
  Claim C3 as stated speaks of every reward and every rank. The script's numbers are
  doubles. At rank \<open>2 ^ 53\<close> a reward of 60 on 45 points of progress crosses one threshold
  and announces a level-up, but \<open>2 ^ 53 + 1\<close> rounds back to \<open>2 ^ 53\<close>: the rank does not
  grow. With a reward of \<open>10 ^ 21\<close> the sum is \<open>10 ^ 21\<close>, taking 100 away gives \<open>10 ^ 21\<close>
  again, and \<open>addRewards\<close> never returns.
\<close>

theorem addRewards_rank_progress_counterexample:
  "rankXp (initialState top_rank_config) = Finite 45
     \<and> rank (initialState top_rank_config) = Finite 9007199254740992
     \<and> (45 + 60) div 100 = (1::int)
     \<and> addRewards top_rank_config 60 5 (initialState top_rank_config)
          = Some (top_rank_result, [Toast (LevelUp ''Level'' (Finite 9007199254740992))])
     \<and> rank top_rank_result = Finite 9007199254740992
     \<and> rankXp (initialState scenario_config) = Finite 45
     \<and> addRewards scenario_config 1000000000000000000000 5 (initialState scenario_config) = None"
proof -
  have "rankXp (initialState scenario_config) = Finite 45"
    by (simp add: initialState_def scenario_config_def to_double_small)
  from this endless_rewards [OF this] top_rank_rewards show ?thesis
    by (simp add: top_rank_result_def top_rank_config_def scenario_config_def initialState_def
          to_double_small)
qed

text \<open>
  Both happen in sessions that the page delivers, where the reward of a set is the
  configured \<open>setPoints\<close>.
\<close>

lemma top_rank_session:
  "offered_along top_rank_config [StartWorkout 1000, ChooseExercise 0, EnterResultData,
       SubmitSet (Num 10) (Num 90) ''12:00:00''] (initialState top_rank_config)
   \<and> (\<exists>s es. run top_rank_config [StartWorkout 1000, ChooseExercise 0, EnterResultData,
         SubmitSet (Num 10) (Num 90) ''12:00:00''] (initialState top_rank_config) = Inr (s, es)
       \<and> rank s = Finite 9007199254740992 \<and> rankXp s = Finite 5
       \<and> es = [Render, Render, SetInterval, Render,
               Toast (LevelUp ''Level'' (Finite 9007199254740992)), Render])"
  by (simp add: top_rank_config_def scenario_config_def eval_defs reward_defs page_defs
        to_double_above)

lemma endless_session:
  "offered_along endless_config [StartWorkout 1000, ChooseExercise 0, EnterResultData,
       SubmitSet (Num 10) (Num 90) ''12:00:00''] (initialState endless_config)
   \<and> run endless_config [StartWorkout 1000, ChooseExercise 0, EnterResultData,
         SubmitSet (Num 10) (Num 90) ''12:00:00''] (initialState endless_config) = Inl NeverReturns"
  by (simp add: endless_config_def scenario_config_def eval_defs page_defs endless_rewards)

subsection \<open>C4: the input guard of submitSet\<close>

text \<open>
  Claim C4, as amended. \<open>submitSet\<close> records an entry only when \<open>reps\<close> is a finite number
  above zero (an integer or not) and \<open>weight\<close> is a finite number that is not negative. Every
  call that violates this guard returns the state unchanged, so nothing is recorded and no
  reward is granted; when an exercise is selected the call also emits exactly one notice.
\<close>

theorem submitSet_rejects_invalid_input:
  "(submitSet cfg r w clock s = Inr (s', es) \<and> entries s' \<noteq> entries s
       \<longrightarrow> is_positive_number r \<and> is_nonnegative_number w)
   \<and> (\<not> (is_positive_number r \<and> is_nonnegative_number w)
       \<longrightarrow> (\<exists>es0. submitSet cfg r w clock s = Inr (s, es0)
              \<and> (selectedExercise s \<noteq> None \<longrightarrow>
                   es0 = [Toast AlreadySubmitted] \<or> es0 = [Toast InvalidReps]
                     \<or> es0 = [Toast InvalidWeight])))"
proof -
  have guard: "is_positive_number r \<and> is_nonnegative_number w
      \<longleftrightarrow> \<not> (\<not> isFinite r \<or> js_le r 0 \<or> \<not> isFinite w \<or> js_lt w 0)"
    by (cases r; cases w) auto
  show ?thesis
  proof (cases "is_positive_number r \<and> is_nonnegative_number w")
    case True
    then show ?thesis by simp
  next
    case False
    then have bad: "\<not> isFinite r \<or> js_le r 0 \<or> \<not> isFinite w \<or> js_lt w 0"
      by (simp add: guard)
    then have rej: "\<exists>es0. submitSet cfg r w clock s = Inr (s, es0)
              \<and> (selectedExercise s \<noteq> None \<longrightarrow>
                   es0 = [Toast AlreadySubmitted] \<or> es0 = [Toast InvalidReps]
                     \<or> es0 = [Toast InvalidWeight])"
      by (auto simp: submitSet_def split: option.splits)
    then have "submitSet cfg r w clock s = Inr (s', es) \<Longrightarrow> entries s' = entries s"
      by auto
    with False rej show ?thesis by blast
  qed
qed

theorem submitSet_rejects_invalid_input_witness:
  "\<not> is_positive_number (Num 0)
     \<and> selectedExercise input_state = Some 0
     \<and> submitSet scenario_config (Num 0) (Num 90) ''12:00:00'' input_state
          = Inr (input_state, [Toast InvalidReps])"
  using submitSet_rejects_invalid_input [of scenario_config "Num 0" "Num 90" "''12:00:00''" input_state]
  by (simp add: submitSet_def input_state_def)

text \<open>
  Claim C4 as stated asks for an integer \<open>reps\<close>. The guard tests \<^verbatim>\<open>Number.isFinite\<close> only:
  two and a half repetitions are recorded.
\<close>

theorem submitSet_integer_reps_counterexample:
  "run scenario_config [StartWorkout 1000, ChooseExercise 0, EnterResultData]
       (initialState scenario_config)
     = Inr (input_state, [Render, Render, SetInterval, Render])
     \<and> submitSet scenario_config (Num (5 / 2)) (Num 90) ''12:00:00'' input_state
       = Inr (fractional_state, [Render])
     \<and> entries input_state = [[]]
     \<and> entries fractional_state = [[first_entry\<lparr> reps := Num (5 / 2) \<rparr>]]
     \<and> \<not> isInteger (Num (5 / 2))"
  using run_input_state step_fractional_state
  by (simp add: fractional_state_def rest_state_def input_state_def floor_five_halves)

subsection \<open>C5: restart returns to the constructed state\<close>

text \<open>
  Claim C5. After \<open>restartSession\<close>, from any state, the session state is the state built at
  construction from the same configuration, field by field.
\<close>

theorem restartSession_initial:
  "fst (restartSession cfg s) = initialState cfg"
  by (simp add: restartSession_def stopRestTimer_def initialState_def)

theorem restartSession_initial_witness:
  "fst (restartSession scenario_config rest_state) = initialState scenario_config"
  by (rule restartSession_initial)

subsection \<open>C6: entering the result screen twice\<close>

text \<open>
  Claim C6. With an exercise selected, a second \<open>enterResultData\<close> right after the first
  leaves the state as it is (the remaining rest seconds and the timer handle with it) and
  makes no timer call: its only effect is the render. The first call starts the timer once
  when none had been started for the set.
\<close>

theorem enterResultData_twice:
  assumes "selectedExercise s = Some idx" and "enterResultData cfg s = Inr (s1, es1)"
  shows "enterResultData cfg s1 = Inr (s1, [Render])
       \<and> (\<not> restTimerStarted s \<longrightarrow>
             restTimerId s1 = Some IntervalHandle \<and> count_list es1 SetInterval = 1)"
  using assms
  by (auto simp: enterResultData_def beginRestTimer_def stopRestTimer_def
           split: if_splits option.splits)

theorem enterResultData_twice_witness:
  "selectedExercise progress_state = Some 0
     \<and> enterResultData scenario_config progress_state = Inr (input_state, [SetInterval, Render])
     \<and> enterResultData scenario_config input_state = Inr (input_state, [Render])
     \<and> restRemaining input_state = 3"
  using enterResultData_twice [OF _ step_input_state, of 0] step_input_state
  by (simp add: progress_state_def input_state_def)

subsection \<open>C7: one entry per set\<close>



subsection \<open>C8: premature actions\<close>




subsection \<open>C9: an empty exercise list\<close>

text \<open>
  Claim C9, as amended. A configuration with an empty exercise list is accepted: the
  script validates nothing at construction, the session starts on the main screen with
  empty \<open>completedSets\<close> and \<open>entries\<close>, \<open>startWorkout\<close> routes straight to the complete
  screen, and every \<open>chooseExercise\<close> returns without effect. Nothing is reported.
\<close>

theorem empty_workout_is_accepted:
  assumes "exercises (workout cfg) = []"
  shows "screen (initialState cfg) = SMain
       \<and> completedSets (initialState cfg) = [] \<and> entries (initialState cfg) = []
       \<and> step cfg (StartWorkout now) (initialState cfg)
            = Inr ((initialState cfg)\<lparr> startedAt := Some now, screen := SComplete \<rparr>, [Render])
       \<and> screen (fst (startWorkout cfg now s)) = SComplete
       \<and> step cfg (ChooseExercise index) s = Inr (s, [])"
  using assms by (simp add: eval_defs split: option.splits)

theorem empty_workout_is_accepted_witness:
  "exercises (workout empty_config) = []
     \<and> completedSets (initialState empty_config) = []
     \<and> step empty_config (StartWorkout 1000) (initialState empty_config)
            = Inr ((initialState empty_config)\<lparr> startedAt := Some 1000, screen := SComplete \<rparr>, [Render])
     \<and> step empty_config (ChooseExercise 0) (initialState empty_config)
            = Inr (initialState empty_config, [])"
  using empty_workout_is_accepted [of empty_config 1000 "initialState empty_config" 0]
  by (simp add: empty_config_def)

text \<open>
  Claim C9 as stated asks for a failure at construction. The session over \<open>empty_config\<close>
  is constructed and runs.
\<close>

theorem empty_workout_counterexample:
  "exercises (workout empty_config) = []
     \<and> run empty_config [StartWorkout 1000] (initialState empty_config)
        = Inr (\<lparr> screen = SComplete, startedAt = Some 1000, selectedExercise = None,
                 completedSets = [], entries = [],
                 currentInput = \<lparr> draftReps = Text '''', draftWeight = Text '''' \<rparr>,
                 restRemaining = 0, restTimerStarted = False, restTimerId = None,
                 inputSubmitted = False, rank = Finite 3, rankXp = Finite 45, streak = 7,
                 currency = Finite 250, sessionPoints = Finite 0 \<rparr>, [Render])"
  by (simp add: empty_config_def eval_defs)

subsection \<open>C10: entries against completed sets\<close>



end
